theory Spec2Isabelle
  imports Complex_Main "HOL-Library.Multiset"
begin

section \<open>Numbers and errors\<close>

text \<open>
  The module \<^verbatim>\<open>sparsembed/losses/flops.py\<close> computes on Python floats and torch
  tensors. Finite float values are idealised as real numbers (no rounding, no overflow),
  except in \<open>FlopsScheduler_step_rounded\<close> below, where rounding is a parameter.
  The one non-finite value that the arithmetic of the module produces from finite
  inputs, the quotient \<open>0 / 0\<close> of a mean over no rows, is kept as \<open>NaN\<close>.
\<close>

datatype py_error = ZeroDivisionError | RuntimeError

datatype fnum = Fin real | NaN

fun fnum_sq :: "fnum \<Rightarrow> fnum" where
  "fnum_sq (Fin x) = Fin (x ^ 2)"
| "fnum_sq NaN = NaN"

fun fnum_add :: "fnum \<Rightarrow> fnum \<Rightarrow> fnum" where
  "fnum_add (Fin x) (Fin y) = Fin (x + y)"
| "fnum_add _ _ = NaN"

fun fnum_sub :: "fnum \<Rightarrow> fnum \<Rightarrow> fnum" where
  "fnum_sub (Fin x) (Fin y) = Fin (x - y)"
| "fnum_sub _ _ = NaN"

fun fnum_abs :: "fnum \<Rightarrow> fnum" where
  "fnum_abs (Fin x) = Fin \<bar>x\<bar>"
| "fnum_abs NaN = NaN"

text \<open>Division of a sum by a row count, as \<open>torch.mean\<close> does: \<open>0 / 0\<close> is NaN. The
  only dividend that meets the divisor 0 is the empty sum.\<close>

definition fnum_div_count :: "real \<Rightarrow> nat \<Rightarrow> fnum" where
  "fnum_div_count s k = (if k = 0 then NaN else Fin (s / real k))"

section \<open>The weight scheduler\<close>

text \<open>The attributes of \<^verbatim>\<open>FlopsScheduler\<close>: \<open>priv_weight\<close> is \<^verbatim>\<open>_weight\<close> (the
  target), \<open>weight\<close> the current weight, \<open>steps\<close> the length of the ramp and
  \<open>priv_step\<close> is \<^verbatim>\<open>_step\<close> (the calls counted so far).\<close>

record sched =
  priv_weight :: real
  weight :: real
  steps :: int
  priv_step :: int

definition FlopsScheduler_init :: "real \<Rightarrow> int \<Rightarrow> sched" where
  "FlopsScheduler_init w s = \<lparr>priv_weight = w, weight = 0, steps = s, priv_step = 0\<rparr>"

text \<open>Python's true division of two ints raises on a zero divisor.\<close>

definition py_truediv :: "int \<Rightarrow> int \<Rightarrow> py_error + real" where
  "py_truediv a b = (if b = 0 then Inl ZeroDivisionError else Inr (real_of_int a / real_of_int b))"

definition FlopsScheduler_step :: "sched \<Rightarrow> py_error + sched" where
  "FlopsScheduler_step st =
     (if priv_step st \<ge> steps st then Inr st
      else let st1 = st\<lparr>priv_step := priv_step st + 1\<rparr>
           in case py_truediv (priv_step st1) (steps st1) of
                Inl e \<Rightarrow> Inl e
              | Inr q \<Rightarrow> Inr (st1\<lparr>weight := priv_weight st1 * q ^ 2\<rparr>))"

definition FlopsScheduler_get :: "sched \<Rightarrow> real" where
  "FlopsScheduler_get st = weight st"

text \<open>The training loop calls \<^verbatim>\<open>step()\<close> once per iteration: \<open>k\<close> calls in a row, the
  first exception ending the run.\<close>

fun step_times :: "nat \<Rightarrow> sched \<Rightarrow> py_error + sched" where
  "step_times 0 st = Inr st"
| "step_times (Suc k) st =
     (case FlopsScheduler_step st of Inl e \<Rightarrow> Inl e | Inr st' \<Rightarrow> step_times k st')"

text \<open>The same method with the float rounding made explicit: every arithmetic result
  (the quotient, the square, the product) passes through the rounding function \<open>rnd\<close>.
  With \<open>rnd\<close> the identity this is \<open>FlopsScheduler_step\<close>.\<close>

definition FlopsScheduler_step_rounded :: "(real \<Rightarrow> real) \<Rightarrow> sched \<Rightarrow> py_error + sched" where
  "FlopsScheduler_step_rounded rnd st =
     (if priv_step st \<ge> steps st then Inr st
      else let st1 = st\<lparr>priv_step := priv_step st + 1\<rparr>
           in case py_truediv (priv_step st1) (steps st1) of
                Inl e \<Rightarrow> Inl e
              | Inr q \<Rightarrow> Inr (st1\<lparr>weight := rnd (priv_weight st1 * rnd ((rnd q) ^ 2))\<rparr>))"

fun step_times_rounded :: "(real \<Rightarrow> real) \<Rightarrow> nat \<Rightarrow> sched \<Rightarrow> py_error + sched" where
  "step_times_rounded rnd 0 st = Inr st"
| "step_times_rounded rnd (Suc k) st =
     (case FlopsScheduler_step_rounded rnd st of
        Inl e \<Rightarrow> Inl e
      | Inr st' \<Rightarrow> step_times_rounded rnd k st')"

text \<open>Rounding to the nearest multiple of a quarter: a small rounding function to run
  the rounded scheduler on.\<close>

definition round_quarter :: "real \<Rightarrow> real" where
  "round_quarter x = real_of_int (round (x * 4)) / 4"

section \<open>The FLOPS loss\<close>

text \<open>A tensor of shape \<open>(batch, vocabulary)\<close>: the size of the second dimension and
  the rows. The shape is part of the value, so that a batch of no rows still has a
  vocabulary size.\<close>

datatype tensor = Tensor (ncols: nat) (rows: "real list list")


text \<open>\<^verbatim>\<open>torch.cat([a, p, n], dim=0)\<close>: the sizes of the other dimension must agree,
  else torch raises a RuntimeError.\<close>

definition cat0 :: "tensor \<Rightarrow> tensor \<Rightarrow> tensor \<Rightarrow> py_error + tensor" where
  "cat0 a p n =
     (if ncols p = ncols a \<and> ncols n = ncols a
      then Inr (Tensor (ncols a) (rows a @ rows p @ rows n))
      else Inl RuntimeError)"

definition abs_t :: "tensor \<Rightarrow> tensor" where
  "abs_t t = Tensor (ncols t) (map (map abs) (rows t))"

text \<open>\<^verbatim>\<open>torch.mean(x, dim=0)\<close>: the rows are added up column by column, from a row of
  zeros, and every column sum is divided by the number of rows.\<close>

definition add_rows :: "real list \<Rightarrow> real list \<Rightarrow> real list" where
  "add_rows acc r = map2 (+) acc r"

definition sum0 :: "tensor \<Rightarrow> real list" where
  "sum0 t = foldl add_rows (replicate (ncols t) 0) (rows t)"

definition mean0 :: "tensor \<Rightarrow> fnum list" where
  "mean0 t = map (\<lambda>s. fnum_div_count s (length (rows t))) (sum0 t)"

text \<open>\<^verbatim>\<open>torch.sum(v, dim=0)\<close> of a vector.\<close>

definition sum_v :: "fnum list \<Rightarrow> fnum" where
  "sum_v v = foldl fnum_add (Fin 0) v"

text \<open>\<^verbatim>\<open>torch.clip(x, min=lo, max=hi)\<close>: \<open>min (max x lo) hi\<close>, so the upper bound wins
  when the bounds cross; NaN stays NaN.\<close>

fun clip :: "fnum \<Rightarrow> real \<Rightarrow> real \<Rightarrow> fnum" where
  "clip (Fin x) lo hi = Fin (min (max x lo) hi)"
| "clip NaN lo hi = NaN"

definition Flops_call :: "tensor \<Rightarrow> tensor \<Rightarrow> tensor \<Rightarrow> real \<Rightarrow> real \<Rightarrow> py_error + fnum" where
  "Flops_call anchor_activations positive_activations negative_activations threshold max_loss =
     (case cat0 anchor_activations positive_activations negative_activations of
        Inl e \<Rightarrow> Inl e
      | Inr activations \<Rightarrow>
          let loss = fnum_abs (fnum_sub (Fin threshold)
                       (sum_v (map fnum_sq (mean0 (abs_t activations)))))
          in Inr (clip loss 0 max_loss))"





section \<open>Closed forms used in the proofs\<close>

text \<open>The state of a scheduler built with target \<open>w\<close> and ramp \<open>s\<close> after \<open>k\<close>
  calls of \<^verbatim>\<open>step()\<close>: the counter stops at \<open>s\<close>.\<close>

definition sched_after :: "nat \<Rightarrow> real \<Rightarrow> int \<Rightarrow> sched" where
  "sched_after k w s =
     \<lparr>priv_weight = w, weight = w * (real (min k (nat s)) / real_of_int s) ^ 2,
      steps = s, priv_step = int (min k (nat s))\<rparr>"

definition sched_after_rounded :: "(real \<Rightarrow> real) \<Rightarrow> nat \<Rightarrow> real \<Rightarrow> int \<Rightarrow> sched" where
  "sched_after_rounded rnd k w s =
     \<lparr>priv_weight = w,
      weight = (if min k (nat s) = 0 then 0
                else rnd (w * rnd ((rnd (real (min k (nat s)) / real_of_int s)) ^ 2))),
      steps = s, priv_step = int (min k (nat s))\<rparr>"

text \<open>The part of \<^verbatim>\<open>Flops.__call__\<close> that follows \<^verbatim>\<open>torch.abs(activations)\<close>.\<close>

definition loss_after_abs :: "tensor \<Rightarrow> real \<Rightarrow> real \<Rightarrow> fnum" where
  "loss_after_abs u threshold max_loss =
     clip (fnum_abs (fnum_sub (Fin threshold) (sum_v (map fnum_sq (mean0 u))))) 0 max_loss"

section \<open>Scheduler: helper lemmas\<close>

lemma step_done: "steps st \<le> priv_step st \<Longrightarrow> FlopsScheduler_step st = Inr st"
  by (simp add: FlopsScheduler_step_def)

lemma step_times_done: "steps st \<le> priv_step st \<Longrightarrow> step_times k st = Inr st"
  by (induction k) (simp_all add: step_done)

lemma step_times_snoc:
  "step_times (Suc k) st =
     (case step_times k st of Inl e \<Rightarrow> Inl e | Inr st' \<Rightarrow> FlopsScheduler_step st')"
proof (induction k arbitrary: st)
  case 0
  show ?case by (simp split: sum.split)
next
  case (Suc k)
  show ?case
  proof (cases "FlopsScheduler_step st")
    case (Inl e)
    then show ?thesis by simp
  next
    case (Inr st')
    have "step_times (Suc (Suc k)) st = step_times (Suc k) st'"
      using Inr by simp
    also have "\<dots> = (case step_times k st' of Inl e \<Rightarrow> Inl e | Inr s \<Rightarrow> FlopsScheduler_step s)"
      by (rule Suc.IH)
    also have "step_times k st' = step_times (Suc k) st"
      using Inr by simp
    finally show ?thesis .
  qed
qed

lemma step_times_init: "step_times k (FlopsScheduler_init w s) = Inr (sched_after k w s)"
proof (induction k)
  case 0
  show ?case by (simp add: FlopsScheduler_init_def sched_after_def)
next
  case (Suc k)
  have "step_times (Suc k) (FlopsScheduler_init w s) = FlopsScheduler_step (sched_after k w s)"
    by (simp only: step_times_snoc Suc.IH sum.case)
  also have "\<dots> = Inr (sched_after (Suc k) w s)"
  proof (cases "int k < s")
    case True
    then have m: "min k (nat s) = k" "min (Suc k) (nat s) = Suc k" "s \<noteq> 0" by auto
    show ?thesis
      using True by (simp add: FlopsScheduler_step_def sched_after_def m py_truediv_def Let_def)
  next
    case False
    then have m: "min k (nat s) = nat s" "min (Suc k) (nat s) = nat s" by auto
    show ?thesis
      using False by (simp add: FlopsScheduler_step_def sched_after_def m)
  qed
  finally show ?case .
qed

lemma step_times_rounded_snoc:
  "step_times_rounded rnd (Suc k) st =
     (case step_times_rounded rnd k st of
        Inl e \<Rightarrow> Inl e
      | Inr st' \<Rightarrow> FlopsScheduler_step_rounded rnd st')"
proof (induction k arbitrary: st)
  case 0
  show ?case by (simp split: sum.split)
next
  case (Suc k)
  show ?case
  proof (cases "FlopsScheduler_step_rounded rnd st")
    case (Inl e)
    then show ?thesis by simp
  next
    case (Inr st')
    have "step_times_rounded rnd (Suc (Suc k)) st = step_times_rounded rnd (Suc k) st'"
      using Inr by simp
    also have "\<dots> = (case step_times_rounded rnd k st' of
                       Inl e \<Rightarrow> Inl e | Inr s \<Rightarrow> FlopsScheduler_step_rounded rnd s)"
      by (rule Suc.IH)
    also have "step_times_rounded rnd k st' = step_times_rounded rnd (Suc k) st"
      using Inr by simp
    finally show ?thesis .
  qed
qed

lemma step_times_rounded_init:
  "step_times_rounded rnd k (FlopsScheduler_init w s) = Inr (sched_after_rounded rnd k w s)"
proof (induction k)
  case 0
  show ?case by (simp add: FlopsScheduler_init_def sched_after_rounded_def)
next
  case (Suc k)
  have "step_times_rounded rnd (Suc k) (FlopsScheduler_init w s)
          = FlopsScheduler_step_rounded rnd (sched_after_rounded rnd k w s)"
    by (simp only: step_times_rounded_snoc Suc.IH sum.case)
  also have "\<dots> = Inr (sched_after_rounded rnd (Suc k) w s)"
  proof (cases "int k < s")
    case True
    then have m: "min k (nat s) = k" "min (Suc k) (nat s) = Suc k" "s \<noteq> 0" by auto
    show ?thesis
      using True
      by (simp add: FlopsScheduler_step_rounded_def sched_after_rounded_def m py_truediv_def
          Let_def add.commute)
  next
    case False
    then have m: "min k (nat s) = nat s" "min (Suc k) (nat s) = nat s" by auto
    show ?thesis
      using False by (simp add: FlopsScheduler_step_rounded_def sched_after_rounded_def m)
  qed
  finally show ?case .
qed

lemma step_rounded_id: "FlopsScheduler_step_rounded (\<lambda>x. x) st = FlopsScheduler_step st"
  by (simp add: FlopsScheduler_step_rounded_def FlopsScheduler_step_def)

lemma weight_after_mono:
  assumes "0 \<le> w" "1 \<le> s" "i \<le> j"
  shows "weight (sched_after i w s) \<le> weight (sched_after j w s)"
proof -
  have "real (min i (nat s)) \<le> real (min j (nat s))" using assms(3) by simp
  then have "real (min i (nat s)) / real_of_int s \<le> real (min j (nat s)) / real_of_int s"
    using assms(2) by (simp add: divide_right_mono)
  moreover have "0 \<le> real (min i (nat s)) / real_of_int s" using assms(2) by simp
  ultimately have "(real (min i (nat s)) / real_of_int s) ^ 2 \<le> (real (min j (nat s)) / real_of_int s) ^ 2"
    by (rule power_mono)
  then show ?thesis using assms(1) by (simp add: sched_after_def mult_left_mono)
qed

lemma sched_after_const:
  assumes "s \<le> int i" and "i \<le> j"
  shows "sched_after j w s = sched_after i w s"
proof -
  have "min i (nat s) = nat s" "min j (nat s) = nat s" using assms by auto
  then show ?thesis by (simp add: sched_after_def)
qed

section \<open>Loss: helper lemmas\<close>

lemma Flops_call_unfold:
  "Flops_call a p n t m =
     (if ncols p = ncols a \<and> ncols n = ncols a
      then Inr (loss_after_abs
                  (Tensor (ncols a)
                     (map (map abs) (rows a) @ map (map abs) (rows p) @ map (map abs) (rows n)))
                  t m)
      else Inl RuntimeError)"
  by (simp add: Flops_call_def cat0_def abs_t_def loss_after_abs_def)

subsection \<open>Column sums\<close>









subsection \<open>Sums of finite numbers\<close>







subsection \<open>The loss in closed form and under permutation\<close>








lemma Flops_call_abs_t:
  "Flops_call a p n t m =
     (if ncols (abs_t p) = ncols (abs_t a) \<and> ncols (abs_t n) = ncols (abs_t a)
      then Inr (loss_after_abs
                  (Tensor (ncols (abs_t a)) (rows (abs_t a) @ rows (abs_t p) @ rows (abs_t n)))
                  t m)
      else Inl RuntimeError)"
  by (simp add: Flops_call_unfold abs_t_def)

lemma abs_t_idem: "abs_t (abs_t a) = abs_t a"
  by (simp add: abs_t_def o_def)

section \<open>Scheduler: the claims\<close>

text \<open>Claim C3. A scheduler built with target weight \<open>w\<close> and \<open>s\<close> ramp steps
  reports the weight 0 before any call of \<^verbatim>\<open>step()\<close>; after exactly \<open>k\<close> calls, for
  \<open>1 \<le> k \<le> s\<close>, no call has raised, the counter is \<open>k\<close> and the weight is
  \<open>w * (k / s)\<^sup>2\<close>; and a call of \<^verbatim>\<open>step()\<close> on a state whose counter is below
  \<open>steps\<close> adds one to the counter and sets the weight by this formula, at the new
  counter.\<close>

theorem scheduler_weight_ramp:
  "FlopsScheduler_get (FlopsScheduler_init w s) = 0
   \<and> (1 \<le> k \<and> int k \<le> s \<longrightarrow>
        step_times k (FlopsScheduler_init w s)
          = Inr \<lparr>priv_weight = w, weight = w * (real k / real_of_int s) ^ 2,
                 steps = s, priv_step = int k\<rparr>)
   \<and> (0 \<le> priv_step st \<and> priv_step st < steps st \<longrightarrow>
        FlopsScheduler_step st
          = Inr (st\<lparr>priv_step := priv_step st + 1,
                    weight := priv_weight st
                      * (real_of_int (priv_step st + 1) / real_of_int (steps st)) ^ 2\<rparr>))"
proof (intro conjI impI)
  show "FlopsScheduler_get (FlopsScheduler_init w s) = 0"
    by (simp add: FlopsScheduler_get_def FlopsScheduler_init_def)
next
  assume "1 \<le> k \<and> int k \<le> s"
  then have "min k (nat s) = k" by auto
  then show "step_times k (FlopsScheduler_init w s)
          = Inr \<lparr>priv_weight = w, weight = w * (real k / real_of_int s) ^ 2,
                 steps = s, priv_step = int k\<rparr>"
    by (simp add: step_times_init sched_after_def)
next
  assume "0 \<le> priv_step st \<and> priv_step st < steps st"
  then have "steps st \<noteq> 0" "\<not> steps st \<le> priv_step st" by auto
  then show "FlopsScheduler_step st
          = Inr (st\<lparr>priv_step := priv_step st + 1,
                    weight := priv_weight st
                      * (real_of_int (priv_step st + 1) / real_of_int (steps st)) ^ 2\<rparr>)"
    by (simp add: FlopsScheduler_step_def py_truediv_def Let_def)
qed

theorem scheduler_weight_ramp_witness:
  "(1::nat) \<le> 2 \<and> int 2 \<le> 4
   \<and> step_times 2 (FlopsScheduler_init 3 4)
       = Inr \<lparr>priv_weight = 3, weight = 3 / 4, steps = 4, priv_step = 2\<rparr>
   \<and> FlopsScheduler_step (FlopsScheduler_init 3 4)
       = Inr \<lparr>priv_weight = 3, weight = 3 / 16, steps = 4, priv_step = 1\<rparr>"
  using scheduler_weight_ramp [of 3 4 2 "FlopsScheduler_init 3 4"]
  by (simp add: FlopsScheduler_init_def power2_eq_square)

text \<open>Claim C4, amended. For a target weight \<open>w \<ge> 0\<close> and \<open>s \<ge> 1\<close> ramp steps, the
  weight read after \<open>i\<close> calls of \<^verbatim>\<open>step()\<close> is at most the weight read after
  \<open>j \<ge> i\<close> calls, and once \<open>i\<close> has reached \<open>s\<close> the state no longer changes. No call
  raises.\<close>

theorem scheduler_weight_monotone:
  assumes "0 \<le> w" and "1 \<le> s" and "i \<le> j"
  shows "\<exists>a b. step_times i (FlopsScheduler_init w s) = Inr a
             \<and> step_times j (FlopsScheduler_init w s) = Inr b
             \<and> FlopsScheduler_get a \<le> FlopsScheduler_get b
             \<and> (s \<le> int i \<longrightarrow> b = a)"
proof (intro exI conjI impI)
  show "step_times i (FlopsScheduler_init w s) = Inr (sched_after i w s)"
    by (rule step_times_init)
  show "step_times j (FlopsScheduler_init w s) = Inr (sched_after j w s)"
    by (rule step_times_init)
  show "FlopsScheduler_get (sched_after i w s) \<le> FlopsScheduler_get (sched_after j w s)"
    unfolding FlopsScheduler_get_def using assms by (rule weight_after_mono)
  show "sched_after j w s = sched_after i w s" if "s \<le> int i"
    using that assms(3) by (rule sched_after_const)
qed

theorem scheduler_weight_monotone_witness:
  "(0::real) \<le> 1 \<and> (1::int) \<le> 2 \<and> (1::nat) \<le> 2
   \<and> (\<exists>a b. step_times 1 (FlopsScheduler_init 1 2) = Inr a
           \<and> step_times 2 (FlopsScheduler_init 1 2) = Inr b
           \<and> FlopsScheduler_get a \<le> FlopsScheduler_get b
           \<and> (2 \<le> int 1 \<longrightarrow> b = a))"
  using scheduler_weight_monotone [of 1 2 1 2] by simp

text \<open>Claim C4 as stated, for every scheduler with \<open>s \<ge> 1\<close>, fails for a negative
  target weight: with \<open>w = -1\<close> and \<open>s = 2\<close> the first call of \<^verbatim>\<open>step()\<close> takes the
  weight from 0 down to \<open>-1/4\<close>.\<close>

theorem scheduler_weight_monotone_counterexample:
  "step_times 0 (FlopsScheduler_init (- 1) 2) = Inr (FlopsScheduler_init (- 1) 2)
   \<and> step_times 1 (FlopsScheduler_init (- 1) 2)
       = Inr \<lparr>priv_weight = - 1, weight = - (1 / 4), steps = 2, priv_step = 1\<rparr>
   \<and> FlopsScheduler_get \<lparr>priv_weight = - 1, weight = - (1 / 4), steps = 2, priv_step = 1\<rparr>
       < FlopsScheduler_get (FlopsScheduler_init (- 1) 2)"
  by (simp add: FlopsScheduler_init_def FlopsScheduler_step_def py_truediv_def
      FlopsScheduler_get_def Let_def power2_eq_square)

text \<open>Claim C5. For \<open>s \<ge> 1\<close>, after exactly \<open>s\<close> calls of \<^verbatim>\<open>step()\<close> the weight is
  the target weight \<open>w\<close> itself. This holds with every arithmetic result rounded, for
  every rounding function that leaves 1 and \<open>w\<close> unchanged (as rounding to the nearest
  float does for a float \<open>w\<close>), so no rounding residue is left; the identity as
  rounding function gives the statement in exact arithmetic.\<close>

theorem scheduler_weight_at_completion:
  assumes "1 \<le> s" and "rnd 1 = 1" and "rnd w = w"
  shows "step_times_rounded rnd (nat s) (FlopsScheduler_init w s)
           = Inr \<lparr>priv_weight = w, weight = w, steps = s, priv_step = s\<rparr>"
proof -
  have "real (nat s) / real_of_int s = 1" using assms(1) by simp
  then show ?thesis
    using assms by (simp add: step_times_rounded_init sched_after_rounded_def)
qed

theorem scheduler_weight_at_completion_witness:
  "(1::int) \<le> 3 \<and> round_quarter 1 = 1 \<and> round_quarter (1 / 2) = 1 / 2
   \<and> step_times_rounded round_quarter (nat 3) (FlopsScheduler_init (1 / 2) 3)
       = Inr \<lparr>priv_weight = 1 / 2, weight = 1 / 2, steps = 3, priv_step = 3\<rparr>"
proof -
  have h: "round_quarter 1 = 1" "round_quarter (1 / 2) = 1 / 2"
    by (simp_all add: round_quarter_def)
  show ?thesis
    using h scheduler_weight_at_completion [of 3 round_quarter "1 / 2"] by simp
qed

text \<open>Claim C6. Once the counter has reached \<open>steps\<close>, a call of \<^verbatim>\<open>step()\<close>, and
  any number of further calls, return the state as it is: the weight and the counter
  keep their values.\<close>

theorem scheduler_frozen:
  assumes "steps st \<le> priv_step st"
  shows "FlopsScheduler_step st = Inr st \<and> step_times k st = Inr st"
  using assms by (simp add: step_done step_times_done)

theorem scheduler_frozen_witness:
  "steps \<lparr>priv_weight = 3, weight = 3, steps = 4, priv_step = 4\<rparr>
     \<le> priv_step \<lparr>priv_weight = 3, weight = 3, steps = 4, priv_step = 4\<rparr>
   \<and> FlopsScheduler_step \<lparr>priv_weight = 3, weight = 3, steps = 4, priv_step = 4\<rparr>
       = Inr \<lparr>priv_weight = 3, weight = 3, steps = 4, priv_step = 4\<rparr>
   \<and> step_times 5 \<lparr>priv_weight = 3, weight = 3, steps = 4, priv_step = 4\<rparr>
       = Inr \<lparr>priv_weight = 3, weight = 3, steps = 4, priv_step = 4\<rparr>"
  using scheduler_frozen [of "\<lparr>priv_weight = 3, weight = 3, steps = 4, priv_step = 4\<rparr>" 5]
  by simp

text \<open>Claim C10. For a scheduler built with \<open>steps \<le> 0\<close>, any number of calls of
  \<^verbatim>\<open>step()\<close> leaves the state as built and the weight read is 0; and for a scheduler
  built with any \<open>steps\<close>, no run of calls raises ZeroDivisionError.\<close>

theorem scheduler_nonpositive_steps:
  "(s \<le> 0 \<longrightarrow>
      step_times k (FlopsScheduler_init w s) = Inr (FlopsScheduler_init w s)
      \<and> FlopsScheduler_get (FlopsScheduler_init w s) = 0)
   \<and> step_times k (FlopsScheduler_init w t) \<noteq> Inl ZeroDivisionError"
proof (intro conjI impI)
  assume "s \<le> 0"
  then show "step_times k (FlopsScheduler_init w s) = Inr (FlopsScheduler_init w s)"
    by (intro step_times_done) (simp add: FlopsScheduler_init_def)
  show "FlopsScheduler_get (FlopsScheduler_init w s) = 0"
    by (simp add: FlopsScheduler_get_def FlopsScheduler_init_def)
next
  show "step_times k (FlopsScheduler_init w t) \<noteq> Inl ZeroDivisionError"
    by (simp add: step_times_init)
qed

theorem scheduler_nonpositive_steps_witness:
  "(0::int) \<le> 0
   \<and> step_times 7 (FlopsScheduler_init 5 0) = Inr (FlopsScheduler_init 5 0)
   \<and> FlopsScheduler_get (FlopsScheduler_init 5 0) = 0
   \<and> step_times 7 (FlopsScheduler_init 5 (- 2)) \<noteq> Inl ZeroDivisionError"
  using scheduler_nonpositive_steps [of 0 7 5 "- 2"] by simp

section \<open>Loss: the claims\<close>









text \<open>Claim C9. The call returns the same result on the elementwise absolute values
  of its three batches as on the batches themselves, and so the same result on any two
  triples of batches that differ in the signs of entries only.\<close>

theorem flops_loss_sign_invariant:
  "Flops_call (abs_t a) (abs_t p) (abs_t n) t m = Flops_call a p n t m
   \<and> (abs_t a' = abs_t a \<and> abs_t p' = abs_t p \<and> abs_t n' = abs_t n
        \<longrightarrow> Flops_call a' p' n' t m = Flops_call a p n t m)"
proof (intro conjI impI)
  show "Flops_call (abs_t a) (abs_t p) (abs_t n) t m = Flops_call a p n t m"
    by (simp only: Flops_call_abs_t [of "abs_t a"] Flops_call_abs_t [of a] abs_t_idem)
next
  assume "abs_t a' = abs_t a \<and> abs_t p' = abs_t p \<and> abs_t n' = abs_t n"
  then show "Flops_call a' p' n' t m = Flops_call a p n t m"
    by (simp only: Flops_call_abs_t [of a'] Flops_call_abs_t [of a])
qed

theorem flops_loss_sign_invariant_witness:
  "abs_t (Tensor 2 [[- 1, 2]]) = abs_t (Tensor 2 [[1, 2]])
   \<and> abs_t (Tensor 2 [[0, - 3]]) = abs_t (Tensor 2 [[0, 3]])
   \<and> abs_t (Tensor 2 []) = abs_t (Tensor 2 [])
   \<and> Flops_call (Tensor 2 [[- 1, 2]]) (Tensor 2 [[0, - 3]]) (Tensor 2 []) 30 1
       = Flops_call (Tensor 2 [[1, 2]]) (Tensor 2 [[0, 3]]) (Tensor 2 []) 30 1"
proof -
  have h: "abs_t (Tensor 2 [[- 1, 2]]) = abs_t (Tensor 2 [[1, 2]])
           \<and> abs_t (Tensor 2 [[0, - 3]]) = abs_t (Tensor 2 [[0, 3]])
           \<and> abs_t (Tensor 2 []) = abs_t (Tensor 2 [])"
    by (simp add: abs_t_def)
  show ?thesis
    using h flops_loss_sign_invariant [of "Tensor 2 [[1, 2]]" "Tensor 2 [[0, 3]]" "Tensor 2 []"
        30 1 "Tensor 2 [[- 1, 2]]" "Tensor 2 [[0, - 3]]" "Tensor 2 []"]
    by blast
qed

end
